theory Spec2Isabelle
  imports Main "HOL-Library.Word"
begin

section \<open>The sliding-window rate limiter (api/middleware.go)\<close>

text \<open>
  The Go struct \<^verbatim>\<open>RateLimiter\<close> holds a map from identifiers to the Unix
  timestamps (seconds) of the admitted requests, the quota and the window. \<^verbatim>\<open>Allow\<close>
  only ever uses the window as \<^verbatim>\<open>int64(rl.window.Seconds())\<close>, so the field
  \<open>window\<close> of the record is that number of whole seconds (3600 and 900 for the two
  limiters of the repository). The mutex is held for the whole body of \<^verbatim>\<open>Allow\<close>,
  so a call is one atomic step on the state. Timestamps are Go \<^verbatim>\<open>int64\<close>; the only
  arithmetic is \<^verbatim>\<open>now - window\<close> on a clock reading and a window of at most
  \<open>2^63 / 10^9\<close> seconds, which cannot wrap, so they are modelled as \<open>int\<close>.
\<close>

record RateLimiter =
  requests :: "string \<rightharpoonup> int list"
  limit :: int
  window :: int

definition NewRateLimiter :: "int \<Rightarrow> int \<Rightarrow> RateLimiter" where
  "NewRateLimiter l w = \<lparr>requests = Map.empty, limit = l, window = w\<rparr>"

text \<open>Reading a Go map at a key it does not hold gives the zero value, the nil slice.\<close>

definition lookup_requests :: "RateLimiter \<Rightarrow> string \<Rightarrow> int list" where
  "lookup_requests rl identifier =
     (case requests rl identifier of None \<Rightarrow> [] | Some ts \<Rightarrow> ts)"

text \<open>The loop of lines 69-73: it appends to \<^verbatim>\<open>validRequests\<close> the request times
  that are strictly later than \<^verbatim>\<open>windowStart\<close>, in order.\<close>

fun remove_old :: "int \<Rightarrow> int list \<Rightarrow> int list \<Rightarrow> int list" where
  "remove_old windowStart [] validRequests = validRequests"
| "remove_old windowStart (reqTime # rest) validRequests =
     remove_old windowStart rest
       (if reqTime > windowStart then validRequests @ [reqTime] else validRequests)"

text \<open>\<^verbatim>\<open>Allow\<close>, with the clock reading \<^verbatim>\<open>time.Now().Unix()\<close> as the argument
  \<open>now\<close>; it returns the verdict and the limiter after the call.\<close>

definition Allow :: "RateLimiter \<Rightarrow> int \<Rightarrow> string \<Rightarrow> bool \<times> RateLimiter" where
  "Allow rl now identifier =
     (let windowStart = now - window rl;
          rl1 = (if requests rl identifier = None
                 then rl\<lparr>requests := (requests rl)(identifier \<mapsto> [])\<rparr> else rl);
          validRequests = remove_old windowStart (lookup_requests rl1 identifier) []
      in if int (length validRequests) \<ge> limit rl1
         then (False, rl1\<lparr>requests := (requests rl1)(identifier \<mapsto> validRequests)\<rparr>)
         else (True, rl1\<lparr>requests := (requests rl1)(identifier \<mapsto> validRequests @ [now])\<rparr>))"

text \<open>A sequence of calls of \<^verbatim>\<open>Allow\<close> on one limiter, each with its clock reading
  and identifier: the verdicts in order and the final limiter.\<close>

fun Allow_calls :: "RateLimiter \<Rightarrow> (int \<times> string) list \<Rightarrow> bool list \<times> RateLimiter" where
  "Allow_calls rl [] = ([], rl)"
| "Allow_calls rl ((now, identifier) # calls) =
     (case Allow rl now identifier of
        (ok, rl') \<Rightarrow> (case Allow_calls rl' calls of (oks, rl'') \<Rightarrow> (ok # oks, rl'')))"

subsection \<open>Basic facts about one call\<close>

lemma remove_old_filter:
  "remove_old ws ts acc = acc @ filter (\<lambda>t. ws < t) ts"
  by (induction ts arbitrary: acc) auto

lemma lookup_requests_fresh:
  "lookup_requests (rl\<lparr>requests := (requests rl)(i \<mapsto> [])\<rparr>) i = []"
  by (simp add: lookup_requests_def)

lemma Allow_valid:
  "remove_old (now - window rl)
     (lookup_requests (if requests rl i = None
                       then rl\<lparr>requests := (requests rl)(i \<mapsto> [])\<rparr> else rl) i) []
   = filter (\<lambda>t. now - window rl < t) (lookup_requests rl i)"
  by (auto simp: remove_old_filter lookup_requests_def)

lemma Allow_verdict:
  "fst (Allow rl now i) \<longleftrightarrow>
     int (length (filter (\<lambda>t. now - window rl < t) (lookup_requests rl i))) < limit rl"
  by (auto simp: Allow_def Let_def remove_old_filter lookup_requests_def)

lemma Allow_stored:
  "requests (snd (Allow rl now i)) i =
     Some (filter (\<lambda>t. now - window rl < t) (lookup_requests rl i)
           @ (if fst (Allow rl now i) then [now] else []))"
  by (auto simp: Allow_def Let_def remove_old_filter lookup_requests_def)

lemma Allow_other:
  "j \<noteq> i \<Longrightarrow> requests (snd (Allow rl now i)) j = requests rl j"
  by (auto simp: Allow_def Let_def)

lemma Allow_config:
  "limit (snd (Allow rl now i)) = limit rl \<and> window (snd (Allow rl now i)) = window rl"
  by (auto simp: Allow_def Let_def)

subsection \<open>A rejected call consumes no quota\<close>

text \<open>
  Claim C7. When \<^verbatim>\<open>Allow\<close> returns false, the stored list of the identifier is
  afterwards its previous list (empty when the identifier was unknown) filtered to the
  timestamps strictly greater than \<open>now - window\<close>: the time of the rejected call is not
  appended. The entry of every other identifier, the quota and the window are unchanged.
\<close>

theorem Allow_rejected_state:
  assumes "fst (Allow rl now identifier) = False"
  shows "requests (snd (Allow rl now identifier)) identifier
           = Some (filter (\<lambda>t. now - window rl < t) (lookup_requests rl identifier))
         \<and> (\<forall>other. other \<noteq> identifier \<longrightarrow>
               requests (snd (Allow rl now identifier)) other = requests rl other)
         \<and> limit (snd (Allow rl now identifier)) = limit rl
         \<and> window (snd (Allow rl now identifier)) = window rl"
  using assms by (simp add: Allow_stored Allow_other Allow_config)

theorem Allow_rejected_state_witness:
  "fst (Allow \<lparr>requests = [''a'' \<mapsto> [10, 50, 55], ''b'' \<mapsto> [1]], limit = 2, window = 60\<rparr>
          100 ''a'') = False
   \<and> requests (snd (Allow \<lparr>requests = [''a'' \<mapsto> [10, 50, 55], ''b'' \<mapsto> [1]],
                             limit = 2, window = 60\<rparr> 100 ''a'')) ''a'' = Some [50, 55]
   \<and> requests (snd (Allow \<lparr>requests = [''a'' \<mapsto> [10, 50, 55], ''b'' \<mapsto> [1]],
                             limit = 2, window = 60\<rparr> 100 ''a'')) ''b'' = Some [1]"
proof -
  let ?rl = "\<lparr>requests = [''a'' \<mapsto> [10, 50, 55], ''b'' \<mapsto> [1]], limit = 2, window = 60\<rparr>"
  have rej: "fst (Allow ?rl 100 ''a'') = False"
    by (simp add: Allow_verdict lookup_requests_def)
  from Allow_rejected_state [OF rej] rej show ?thesis
    by (simp add: lookup_requests_def)
qed

end
